theory Spec2Isabelle
  imports Main "HOL-Library.Multiset"
begin

section \<open>Task Manager API: the data model\<close>

text \<open>
  The development embeds \<^verbatim>\<open>applications/task-manager/main.py\<close>. The table
  \<^verbatim>\<open>tasks\<close> is a list of rows together with the counter of the \<^verbatim>\<open>SERIAL\<close>
  column; every handler takes the database and returns its result together with the
  database it leaves behind. An \<^verbatim>\<open>HTTPException\<close> is the left summand of the result;
  any other exception inside a handler is caught there and answered 500.

  Instants (\<^verbatim>\<open>datetime\<close>, \<^verbatim>\<open>TIMESTAMP WITH TIME ZONE\<close>) are integers, the
  microseconds since the epoch, and \<^verbatim>\<open>NOW()\<close> is the argument \<open>now\<close> of a handler.
  A stored \<^verbatim>\<open>DATE\<close> is a triple of year, month and day. The handlers are modelled on
  the parsed request bodies (the pydantic objects), whose \<^verbatim>\<open>due_date\<close> is the string
  the validator returned.
\<close>

type_synonym timestamp = int
type_synonym date = "nat \<times> nat \<times> nat"

datatype error =
    BadRequest          \<comment> \<open>400, the spec's InvalidRequest\<close>
  | Unauthorized        \<comment> \<open>401\<close>
  | NotFound            \<comment> \<open>404\<close>
  | Conflict            \<comment> \<open>409\<close>
  | InternalError       \<comment> \<open>500\<close>

record TaskCreate =
  c_title :: string
  c_content :: string
  c_due_date :: string
  c_request_timestamp :: timestamp

record TaskUpdate =
  u_title :: "string option"
  u_content :: "string option"
  u_due_date :: "string option"
  u_done :: "bool option"
  u_request_timestamp :: timestamp

record TaskDelete =
  d_request_timestamp :: timestamp

text \<open>In a \<^verbatim>\<open>TaskResponse\<close> the date stands for its \<^verbatim>\<open>isoformat()\<close>.\<close>

record TaskResponse =
  resp_id :: int
  resp_title :: string
  resp_content :: string
  resp_due_date :: date
  resp_done :: bool
  resp_created_at :: timestamp
  resp_updated_at :: timestamp

text \<open>A row of the table \<^verbatim>\<open>tasks\<close>, one field per column.\<close>

record row =
  row_id :: int
  row_title :: string
  row_content :: string
  row_due_date :: date
  row_done :: bool
  row_created_at :: timestamp
  row_updated_at :: timestamp
  row_last_request_timestamp :: timestamp

record database =
  tasks :: "row list"
  tasks_id_seq :: int   \<comment> \<open>the next value of the \<^verbatim>\<open>SERIAL\<close> sequence\<close>

section \<open>Authentication\<close>

record user =
  user_id :: string
  scopes :: "string list"

definition verify_token :: "string \<Rightarrow> error + user" where
  "verify_token token =
     (if token = [] \<or> length token < 10 then Inl Unauthorized
      else Inr \<lparr>user_id = ''demo_user'', scopes = [''read'', ''write'']\<rparr>)"

section \<open>The driver\<close>

text \<open>
  A handler passes Python values as the arguments of a statement: a \<^verbatim>\<open>str\<close> is a
  \<open>VText\<close>, a \<^verbatim>\<open>bool\<close> a \<open>VBool\<close>, a \<^verbatim>\<open>datetime\<close> a \<open>VTime\<close>, an
  \<^verbatim>\<open>int\<close> a \<open>VInt\<close> and a \<^verbatim>\<open>datetime.date\<close> a \<open>VDate\<close>. Before it sends
  the statement, the driver encodes each argument for the type of its parameter, and
  raises when the value is not of the Python type that parameter takes or does not fit:
  an \<^verbatim>\<open>int\<close> outside 32 bits for the \<^verbatim>\<open>SERIAL\<close> column, a \<^verbatim>\<open>str\<close> for a
  \<^verbatim>\<open>DATE\<close>.
\<close>

datatype sql_value = VText string | VDate date | VBool bool | VTime timestamp | VInt int

datatype sql_type = TInt4 | TVarchar | TText | TDate | TBool | TTimestamptz

definition int4 :: "int \<Rightarrow> bool" where
  "int4 i \<longleftrightarrow> - 2147483648 \<le> i \<and> i \<le> 2147483647"

fun encodes :: "sql_type \<Rightarrow> sql_value \<Rightarrow> bool" where
  "encodes TInt4 (VInt i) = int4 i"
| "encodes TVarchar (VText s) = True"
| "encodes TText (VText s) = True"
| "encodes TDate (VDate d) = True"
| "encodes TBool (VBool b) = True"
| "encodes TTimestamptz (VTime t) = True"
| "encodes ty v = False"

text \<open>The argument bound to placeholder \<open>$n\<close>.\<close>

definition placeholder :: "sql_value list \<Rightarrow> nat \<Rightarrow> sql_value option" where
  "placeholder vs n = (if 1 \<le> n \<and> n \<le> length vs then Some (vs ! (n - 1)) else None)"

text \<open>Every parameter of a statement has an argument, and the driver can encode it.\<close>

definition bind :: "sql_value list \<Rightarrow> (nat \<times> sql_type) list \<Rightarrow> bool" where
  "bind vs ps =
     list_all (\<lambda>(n, ty). case placeholder vs n of None \<Rightarrow> False | Some v \<Rightarrow> encodes ty v) ps"

text \<open>\<^verbatim>\<open>fetchrow\<close> gives the first row of a result, or nothing.\<close>

definition fetchrow :: "'a list \<Rightarrow> 'a option" where
  "fetchrow rs = (case rs of [] \<Rightarrow> None | r # _ \<Rightarrow> Some r)"

section \<open>Statements\<close>

text \<open>The seven columns every handler selects or returns, as a \<^verbatim>\<open>TaskResponse\<close>.\<close>

definition task_response :: "row \<Rightarrow> TaskResponse" where
  "task_response r =
     \<lparr>resp_id = row_id r, resp_title = row_title r, resp_content = row_content r,
      resp_due_date = row_due_date r, resp_done = row_done r,
      resp_created_at = row_created_at r, resp_updated_at = row_updated_at r\<rparr>"

text \<open>The rows \<^verbatim>\<open>WHERE id = $1\<close> selects, and the statement
  \<^verbatim>\<open>SELECT ... FROM tasks WHERE id = $1\<close> as the driver runs it with the path
  parameter \<^verbatim>\<open>task_id\<close>.\<close>

definition select_by_id :: "database \<Rightarrow> int \<Rightarrow> row list" where
  "select_by_id db i = filter (\<lambda>r. row_id r = i) (tasks db)"

definition query_by_id :: "database \<Rightarrow> int \<Rightarrow> row list option" where
  "query_by_id db task_id =
     (if bind [VInt task_id] [(1, TInt4)] then Some (select_by_id db task_id) else None)"

text \<open>\<^verbatim>\<open>SELECT id FROM tasks WHERE title = $1 AND last_request_timestamp >= $2\<close>, with
  a \<^verbatim>\<open>str\<close> and a \<^verbatim>\<open>datetime\<close>, which the driver takes.\<close>

definition select_conflicts :: "database \<Rightarrow> string \<Rightarrow> timestamp \<Rightarrow> int list" where
  "select_conflicts db t ts =
     map row_id (filter (\<lambda>r. row_title r = t \<and> row_last_request_timestamp r \<ge> ts) (tasks db))"

text \<open>
  \<^verbatim>\<open>INSERT INTO tasks (title, content, due_date, last_request_timestamp) VALUES
  ($1, $2, $3, $4) RETURNING ...\<close>: the id is drawn from the sequence, \<^verbatim>\<open>done\<close> takes
  its default \<^verbatim>\<open>FALSE\<close> and both \<^verbatim>\<open>created_at\<close> and \<^verbatim>\<open>updated_at\<close> their
  default \<^verbatim>\<open>NOW()\<close>. Nothing is sent when an argument cannot be encoded.
\<close>

definition insert_row :: "timestamp \<Rightarrow> string \<Rightarrow> string \<Rightarrow> date \<Rightarrow> timestamp \<Rightarrow> database \<Rightarrow> row \<times> database" where
  "insert_row now t c d ts db =
     (let r = \<lparr>row_id = tasks_id_seq db, row_title = t, row_content = c, row_due_date = d,
               row_done = False, row_created_at = now, row_updated_at = now,
               row_last_request_timestamp = ts\<rparr>
      in (r, \<lparr>tasks = tasks db @ [r], tasks_id_seq = tasks_id_seq db + 1\<rparr>))"

definition insert_task :: "timestamp \<Rightarrow> sql_value list \<Rightarrow> database \<Rightarrow> (row \<times> database) option" where
  "insert_task now args db =
     (if \<not> bind args [(1, TVarchar), (2, TText), (3, TDate), (4, TTimestamptz)] then None
      else (case args of
              [VText t, VText c, VDate d, VTime ts] \<Rightarrow> Some (insert_row now t c d ts db)
            | _ \<Rightarrow> None))"

text \<open>\<^verbatim>\<open>DELETE FROM tasks WHERE id = $1\<close>\<close>

definition delete_by_id :: "int \<Rightarrow> database \<Rightarrow> database" where
  "delete_by_id i db = db\<lparr>tasks := filter (\<lambda>r. row_id r \<noteq> i) (tasks db)\<rparr>"

definition execute_delete :: "int \<Rightarrow> database \<Rightarrow> database option" where
  "execute_delete task_id db =
     (if bind [VInt task_id] [(1, TInt4)] then Some (delete_by_id task_id db) else None)"

subsection \<open>The dynamically built UPDATE\<close>

text \<open>
  \<^verbatim>\<open>update_task\<close> assembles the \<^verbatim>\<open>SET\<close> list and the argument list side by
  side. A \<open>set_clause\<close> is one element of \<^verbatim>\<open>updates\<close>, holding the number of
  its placeholder; the arguments are the elements of \<^verbatim>\<open>values\<close>.
\<close>

datatype set_clause =
    SetTitle nat | SetContent nat | SetDueDate nat | SetDone nat
  | SetUpdatedAtNow | SetLastRequestTimestamp nat

text \<open>The parameter of an assignment, with the type of its column.\<close>

fun clause_param :: "set_clause \<Rightarrow> (nat \<times> sql_type) list" where
  "clause_param (SetTitle n) = [(n, TVarchar)]"
| "clause_param (SetContent n) = [(n, TText)]"
| "clause_param (SetDueDate n) = [(n, TDate)]"
| "clause_param (SetDone n) = [(n, TBool)]"
| "clause_param SetUpdatedAtNow = []"
| "clause_param (SetLastRequestTimestamp n) = [(n, TTimestamptz)]"

text \<open>One assignment of the \<^verbatim>\<open>SET\<close> list, on one row.\<close>

fun assign :: "timestamp \<Rightarrow> sql_value list \<Rightarrow> set_clause \<Rightarrow> row \<Rightarrow> row option" where
  "assign now vs (SetTitle n) r =
     (case placeholder vs n of Some (VText v) \<Rightarrow> Some (r\<lparr>row_title := v\<rparr>) | _ \<Rightarrow> None)"
| "assign now vs (SetContent n) r =
     (case placeholder vs n of Some (VText v) \<Rightarrow> Some (r\<lparr>row_content := v\<rparr>) | _ \<Rightarrow> None)"
| "assign now vs (SetDueDate n) r =
     (case placeholder vs n of Some (VDate v) \<Rightarrow> Some (r\<lparr>row_due_date := v\<rparr>) | _ \<Rightarrow> None)"
| "assign now vs (SetDone n) r =
     (case placeholder vs n of Some (VBool v) \<Rightarrow> Some (r\<lparr>row_done := v\<rparr>) | _ \<Rightarrow> None)"
| "assign now vs SetUpdatedAtNow r = Some (r\<lparr>row_updated_at := now\<rparr>)"
| "assign now vs (SetLastRequestTimestamp n) r =
     (case placeholder vs n of
        Some (VTime v) \<Rightarrow> Some (r\<lparr>row_last_request_timestamp := v\<rparr>) | _ \<Rightarrow> None)"

fun assign_all :: "timestamp \<Rightarrow> sql_value list \<Rightarrow> set_clause list \<Rightarrow> row \<Rightarrow> row option" where
  "assign_all now vs [] r = Some r"
| "assign_all now vs (c # cs) r =
     (case assign now vs c r of None \<Rightarrow> None | Some r' \<Rightarrow> assign_all now vs cs r')"

text \<open>
  \<^verbatim>\<open>UPDATE tasks SET ... WHERE id = $k RETURNING ...\<close>: the driver encodes the
  arguments; then every row whose id is the argument of \<open>$k\<close> is rewritten. The result
  is the rewritten rows and the new table, or nothing when the statement fails.
\<close>

fun update_rows ::
  "timestamp \<Rightarrow> sql_value list \<Rightarrow> set_clause list \<Rightarrow> int \<Rightarrow> row list \<Rightarrow> (row list \<times> row list) option" where
  "update_rows now vs cs i [] = Some ([], [])"
| "update_rows now vs cs i (r # rs) =
     (case update_rows now vs cs i rs of
        None \<Rightarrow> None
      | Some (ret, rs') \<Rightarrow>
          if row_id r = i then
            (case assign_all now vs cs r of
               None \<Rightarrow> None
             | Some r' \<Rightarrow> Some (r' # ret, r' # rs'))
          else Some (ret, r # rs'))"

definition execute_update ::
  "timestamp \<Rightarrow> set_clause list \<Rightarrow> nat \<Rightarrow> sql_value list \<Rightarrow> database \<Rightarrow> (row list \<times> database) option" where
  "execute_update now cs k vs db =
     (if \<not> bind vs (concat (map clause_param cs) @ [(k, TInt4)]) then None
      else
        (case placeholder vs k of
           Some (VInt i) \<Rightarrow>
             (case update_rows now vs cs i (tasks db) of
                None \<Rightarrow> None
              | Some (ret, rs') \<Rightarrow> Some (ret, db\<lparr>tasks := rs'\<rparr>))
         | _ \<Rightarrow> None))"

text \<open>
  The assembly of \<^verbatim>\<open>updates\<close>, \<^verbatim>\<open>values\<close> and \<^verbatim>\<open>param_count\<close>, statement by
  statement: one step for each optional field, then the two timestamps, which are
  appended whatever the request holds.
\<close>

type_synonym query = "set_clause list \<times> sql_value list \<times> nat"

definition add_title :: "TaskUpdate \<Rightarrow> query \<Rightarrow> query" where
  "add_title u q = (case q of (updates, vals, param_count) \<Rightarrow>
     (case u_title u of
        None \<Rightarrow> q
      | Some v \<Rightarrow> (updates @ [SetTitle param_count], vals @ [VText v], param_count + 1)))"

definition add_content :: "TaskUpdate \<Rightarrow> query \<Rightarrow> query" where
  "add_content u q = (case q of (updates, vals, param_count) \<Rightarrow>
     (case u_content u of
        None \<Rightarrow> q
      | Some v \<Rightarrow> (updates @ [SetContent param_count], vals @ [VText v], param_count + 1)))"

definition add_due_date :: "TaskUpdate \<Rightarrow> query \<Rightarrow> query" where
  "add_due_date u q = (case q of (updates, vals, param_count) \<Rightarrow>
     (case u_due_date u of
        None \<Rightarrow> q
      | Some v \<Rightarrow> (updates @ [SetDueDate param_count], vals @ [VText v], param_count + 1)))"

definition add_done :: "TaskUpdate \<Rightarrow> query \<Rightarrow> query" where
  "add_done u q = (case q of (updates, vals, param_count) \<Rightarrow>
     (case u_done u of
        None \<Rightarrow> q
      | Some v \<Rightarrow> (updates @ [SetDone param_count], vals @ [VBool v], param_count + 1)))"

definition add_timestamps :: "TaskUpdate \<Rightarrow> int \<Rightarrow> query \<Rightarrow> query" where
  "add_timestamps u task_id q = (case q of (updates, vals, param_count) \<Rightarrow>
     (updates @ [SetUpdatedAtNow, SetLastRequestTimestamp param_count],
      vals @ [VTime (u_request_timestamp u), VInt task_id],
      param_count))"

definition build_update :: "TaskUpdate \<Rightarrow> int \<Rightarrow> query" where
  "build_update u task_id =
     add_timestamps u task_id (add_done u (add_due_date u (add_content u (add_title u ([], [], 1)))))"

section \<open>The handlers\<close>

text \<open>
  \<^verbatim>\<open>create_task\<close>: the guard, then the \<^verbatim>\<open>INSERT\<close> with the title, the content,
  the \<^verbatim>\<open>due_date\<close> string and the request timestamp as its arguments.
\<close>

definition create_task ::
  "timestamp \<Rightarrow> TaskCreate \<Rightarrow> database \<Rightarrow> (error + TaskResponse) \<times> database" where
  "create_task now task db =
     (case fetchrow (select_conflicts db (c_title task) (c_request_timestamp task)) of
        Some existing \<Rightarrow> (Inl Conflict, db)
      | None \<Rightarrow>
          (case insert_task now
                  [VText (c_title task), VText (c_content task), VText (c_due_date task),
                   VTime (c_request_timestamp task)] db of
             None \<Rightarrow> (Inl InternalError, db)
           | Some (r, db') \<Rightarrow> (Inr (task_response r), db')))"

text \<open>\<^verbatim>\<open>ORDER BY created_at DESC\<close>; rows of equal \<^verbatim>\<open>created_at\<close> are kept in table
  order, which the statement leaves open.\<close>

definition list_tasks :: "database \<Rightarrow> (error + TaskResponse list) \<times> database" where
  "list_tasks db =
     (Inr (map task_response (sort_key (\<lambda>r. - row_created_at r) (tasks db))), db)"

definition get_task :: "int \<Rightarrow> database \<Rightarrow> (error + TaskResponse) \<times> database" where
  "get_task task_id db =
     (case query_by_id db task_id of
        None \<Rightarrow> (Inl InternalError, db)
      | Some rs \<Rightarrow>
          (case fetchrow rs of
             None \<Rightarrow> (Inl NotFound, db)
           | Some r \<Rightarrow> (Inr (task_response r), db)))"

text \<open>
  \<^verbatim>\<open>update_task\<close> awaits the database twice. \<open>update_gate\<close> is the handler up to
  the end of the out-of-order check: the \<^verbatim>\<open>SELECT\<close>, the 404 and the 409; it gives
  the error the handler raises there, or nothing when the request may go on.
  \<open>update_write\<close> is the rest: the assembly of the query, the \<^verbatim>\<open>UPDATE\<close> and the
  response. The \<^verbatim>\<open>UPDATE\<close> has no condition on the watermark and the two statements
  are not in a transaction. \<open>update_task\<close> is the handler served with no other request
  in between.
\<close>

definition update_gate :: "int \<Rightarrow> TaskUpdate \<Rightarrow> database \<Rightarrow> error option" where
  "update_gate task_id task_update db =
     (case query_by_id db task_id of
        None \<Rightarrow> Some InternalError
      | Some rs \<Rightarrow>
          (case fetchrow rs of
             None \<Rightarrow> Some NotFound
           | Some current \<Rightarrow>
               if u_request_timestamp task_update \<le> row_last_request_timestamp current
               then Some Conflict
               else None))"

definition update_write ::
  "timestamp \<Rightarrow> int \<Rightarrow> TaskUpdate \<Rightarrow> database \<Rightarrow> (error + TaskResponse) \<times> database" where
  "update_write now task_id task_update db =
     (case build_update task_update task_id of (updates, vals, param_count) \<Rightarrow>
        if updates = [] then (Inl BadRequest, db)
        else
          (case execute_update now updates (param_count + 1) vals db of
             None \<Rightarrow> (Inl InternalError, db)
           | Some (ret, db') \<Rightarrow>
               (case fetchrow ret of
                  None \<Rightarrow> (Inl InternalError, db')
                | Some r \<Rightarrow> (Inr (task_response r), db'))))"

definition update_task ::
  "timestamp \<Rightarrow> int \<Rightarrow> TaskUpdate \<Rightarrow> database \<Rightarrow> (error + TaskResponse) \<times> database" where
  "update_task now task_id task_update db =
     (case update_gate task_id task_update db of
        Some e \<Rightarrow> (Inl e, db)
      | None \<Rightarrow> update_write now task_id task_update db)"

text \<open>\<^verbatim>\<open>delete_task\<close>, in the same two parts.\<close>

definition delete_gate :: "int \<Rightarrow> TaskDelete \<Rightarrow> database \<Rightarrow> error option" where
  "delete_gate task_id task_delete db =
     (case query_by_id db task_id of
        None \<Rightarrow> Some InternalError
      | Some rs \<Rightarrow>
          (case fetchrow rs of
             None \<Rightarrow> Some NotFound
           | Some current \<Rightarrow>
               if d_request_timestamp task_delete \<le> row_last_request_timestamp current
               then Some Conflict
               else None))"

definition delete_write :: "int \<Rightarrow> database \<Rightarrow> (error + string) \<times> database" where
  "delete_write task_id db =
     (case execute_delete task_id db of
        None \<Rightarrow> (Inl InternalError, db)
      | Some db' \<Rightarrow> (Inr ''Task deleted successfully'', db'))"

definition delete_task ::
  "int \<Rightarrow> TaskDelete \<Rightarrow> database \<Rightarrow> (error + string) \<times> database" where
  "delete_task task_id task_delete db =
     (case delete_gate task_id task_delete db of
        Some e \<Rightarrow> (Inl e, db)
      | None \<Rightarrow> delete_write task_id db)"

section \<open>Requests in sequence\<close>

text \<open>
  A request is one call of a handler; \<open>handle\<close> dispatches it, \<open>run\<close> serves a
  list of requests one after the other, each with the time the database clock shows
  when it is served.
\<close>

datatype request =
    Create TaskCreate
  | ListAll
  | Get int
  | Update int TaskUpdate
  | Delete int TaskDelete

datatype reply = Task TaskResponse | TaskList "TaskResponse list" | Message string

definition handle :: "timestamp \<Rightarrow> request \<Rightarrow> database \<Rightarrow> (error + reply) \<times> database" where
  "handle now rq db =
     (case rq of
        Create task \<Rightarrow> (case create_task now task db of (res, db') \<Rightarrow> (map_sum id Task res, db'))
      | ListAll \<Rightarrow> (case list_tasks db of (res, db') \<Rightarrow> (map_sum id TaskList res, db'))
      | Get i \<Rightarrow> (case get_task i db of (res, db') \<Rightarrow> (map_sum id Task res, db'))
      | Update i u \<Rightarrow> (case update_task now i u db of (res, db') \<Rightarrow> (map_sum id Task res, db'))
      | Delete i d \<Rightarrow> (case delete_task i d db of (res, db') \<Rightarrow> (map_sum id Message res, db')))"

fun run :: "(timestamp \<times> request) list \<Rightarrow> database \<Rightarrow> database" where
  "run [] db = db"
| "run ((now, rq) # rqs) db = run rqs (snd (handle now rq db))"

text \<open>
  An accepted mutation: the identity it is about and its request timestamp. A create
  is about the identity it is given by the store.
\<close>

definition accepted :: "timestamp \<Rightarrow> request \<Rightarrow> database \<Rightarrow> (int \<times> timestamp) option" where
  "accepted now rq db =
     (case rq of
        Create task \<Rightarrow>
          (case fst (create_task now task db) of
             Inl e \<Rightarrow> None | Inr resp \<Rightarrow> Some (resp_id resp, c_request_timestamp task))
      | Update i u \<Rightarrow>
          (case fst (update_task now i u db) of
             Inl e \<Rightarrow> None | Inr resp \<Rightarrow> Some (i, u_request_timestamp u))
      | Delete i d \<Rightarrow>
          (case fst (delete_task i d db) of
             Inl e \<Rightarrow> None | Inr m \<Rightarrow> Some (i, d_request_timestamp d))
      | _ \<Rightarrow> None)"

fun accepted_log :: "(timestamp \<times> request) list \<Rightarrow> database \<Rightarrow> (int \<times> timestamp) list" where
  "accepted_log [] db = []"
| "accepted_log ((now, rq) # rqs) db =
     (case accepted now rq db of None \<Rightarrow> [] | Some e \<Rightarrow> [e])
       @ accepted_log rqs (snd (handle now rq db))"

definition accepted_timestamps :: "int \<Rightarrow> (timestamp \<times> request) list \<Rightarrow> database \<Rightarrow> timestamp list" where
  "accepted_timestamps i rqs db = map snd (filter (\<lambda>e. fst e = i) (accepted_log rqs db))"

text \<open>The watermark of the task with a given id, when there is one.\<close>

definition watermark :: "database \<Rightarrow> int \<Rightarrow> timestamp option" where
  "watermark db i = map_option row_last_request_timestamp (fetchrow (select_by_id db i))"

text \<open>
  What \<^verbatim>\<open>id SERIAL PRIMARY KEY\<close> maintains: the ids of the table are pairwise
  distinct, and each was drawn from the sequence before its current value.
\<close>

definition well_formed :: "database \<Rightarrow> bool" where
  "well_formed db \<longleftrightarrow>
     distinct (map row_id (tasks db)) \<and> list_all (\<lambda>r. row_id r < tasks_id_seq db) (tasks db)"

text \<open>An id the column can hold, that was given out and whose row is no longer in the
  table.\<close>

definition gone :: "database \<Rightarrow> int \<Rightarrow> bool" where
  "gone db i \<longleftrightarrow> int4 i \<and> i < tasks_id_seq db \<and> select_by_id db i = []"

definition empty_database :: database where
  "empty_database = \<lparr>tasks = [], tasks_id_seq = 1\<rparr>"

text \<open>
  The sparse merge of an update on a row: a title, content or done flag present in the
  request takes its value, an absent one keeps the stored value, \<^verbatim>\<open>updated_at\<close>
  becomes the current time and the watermark the request timestamp.
\<close>

definition merged :: "timestamp \<Rightarrow> TaskUpdate \<Rightarrow> row \<Rightarrow> row" where
  "merged now u r =
     r\<lparr>row_title := (case u_title u of None \<Rightarrow> row_title r | Some v \<Rightarrow> v),
       row_content := (case u_content u of None \<Rightarrow> row_content r | Some v \<Rightarrow> v),
       row_done := (case u_done u of None \<Rightarrow> row_done r | Some v \<Rightarrow> v),
       row_updated_at := now,
       row_last_request_timestamp := u_request_timestamp u\<rparr>"

section \<open>Requests in flight together\<close>

text \<open>
  The handlers are coroutines over a pool of connections: while one update awaits the
  answer to its \<^verbatim>\<open>SELECT\<close> or is about to send its \<^verbatim>\<open>UPDATE\<close>, another request
  can be served. A schedule lists what the server does, in order: it serves a request
  whole, or it takes the update of handler \<open>k\<close> through its gate, or it lets handler
  \<open>k\<close>, suspended behind its gate, send its \<^verbatim>\<open>UPDATE\<close>. The server keeps the
  database, the updates suspended behind their gate, and the accepted mutations so far.
\<close>

datatype action =
    Whole timestamp request
  | UpdateBegin nat int TaskUpdate
  | UpdateEnd nat timestamp

record server =
  store :: database
  suspended :: "(nat \<times> int \<times> TaskUpdate) list"
  accepted_so_far :: "(int \<times> timestamp) list"

fun act :: "action \<Rightarrow> server \<Rightarrow> server" where
  "act (Whole now rq) s =
     s\<lparr>store := snd (handle now rq (store s)),
       accepted_so_far := accepted_so_far s
          @ (case accepted now rq (store s) of None \<Rightarrow> [] | Some e \<Rightarrow> [e])\<rparr>"
| "act (UpdateBegin k i u) s =
     (case update_gate i u (store s) of
        Some e \<Rightarrow> s
      | None \<Rightarrow> s\<lparr>suspended := (k, i, u) # suspended s\<rparr>)"
| "act (UpdateEnd k now) s =
     (case map_of (suspended s) k of
        None \<Rightarrow> s
      | Some (i, u) \<Rightarrow>
          (case update_write now i u (store s) of (res, db') \<Rightarrow>
             s\<lparr>store := db',
               suspended := filter (\<lambda>e. fst e \<noteq> k) (suspended s),
               accepted_so_far := accepted_so_far s
                  @ (case res of Inl e \<Rightarrow> [] | Inr resp \<Rightarrow> [(i, u_request_timestamp u)])\<rparr>))"

fun interleave :: "action list \<Rightarrow> server \<Rightarrow> server" where
  "interleave [] s = s"
| "interleave (a # as) s = interleave as (act a s)"

definition serving :: "database \<Rightarrow> server" where
  "serving db = \<lparr>store = db, suspended = [], accepted_so_far = []\<rparr>"

subsection \<open>Sample data\<close>

definition sample_row :: row where
  "sample_row =
     \<lparr>row_id = 1, row_title = ''X'', row_content = ''first'', row_due_date = (2025, 1, 31),
      row_done = False, row_created_at = 1000, row_updated_at = 1000,
      row_last_request_timestamp = 100\<rparr>"

definition sample_db :: database where
  "sample_db = \<lparr>tasks = [sample_row], tasks_id_seq = 2\<rparr>"

definition only_done :: "timestamp \<Rightarrow> TaskUpdate" where
  "only_done ts =
     \<lparr>u_title = None, u_content = None, u_due_date = None, u_done = Some True,
      u_request_timestamp = ts\<rparr>"

definition no_fields :: "timestamp \<Rightarrow> TaskUpdate" where
  "no_fields ts =
     \<lparr>u_title = None, u_content = None, u_due_date = None, u_done = None,
      u_request_timestamp = ts\<rparr>"

definition only_due_date :: "timestamp \<Rightarrow> TaskUpdate" where
  "only_due_date ts =
     \<lparr>u_title = None, u_content = None, u_due_date = Some ''2025-03-01'', u_done = None,
      u_request_timestamp = ts\<rparr>"

definition sample_create :: "timestamp \<Rightarrow> TaskCreate" where
  "sample_create ts =
     \<lparr>c_title = ''X'', c_content = ''again'', c_due_date = ''2025-02-01'',
      c_request_timestamp = ts\<rparr>"

definition done_row :: row where
  "done_row =
     \<lparr>row_id = 1, row_title = ''X'', row_content = ''first'', row_due_date = (2025, 1, 31),
      row_done = True, row_created_at = 1000, row_updated_at = 2000,
      row_last_request_timestamp = 200\<rparr>"

definition second_row :: row where
  "second_row =
     \<lparr>row_id = 2, row_title = ''Y'', row_content = ''second'', row_due_date = (2025, 2, 1),
      row_done = False, row_created_at = 1500, row_updated_at = 1500,
      row_last_request_timestamp = 150\<rparr>"

definition two_rows_db :: database where
  "two_rows_db = \<lparr>tasks = [sample_row, second_row], tasks_id_seq = 3\<rparr>"

definition sample_requests :: "(timestamp \<times> request) list" where
  "sample_requests =
     [(2000, Update 1 (only_done 200)),
      (2100, Update 1 (no_fields 150)),
      (2200, Create (sample_create 300)),
      (2300, Update 1 (no_fields 250)),
      (2400, Delete 1 \<lparr>d_request_timestamp = 250\<rparr>)]"

definition racing_updates :: "action list" where
  "racing_updates =
     [UpdateBegin 1 1 (only_done 300),
      UpdateBegin 2 1 (only_done 200),
      UpdateEnd 1 2000,
      UpdateEnd 2 2001]"

section \<open>The statements in closed form\<close>

lemma bind_id: "bind [VInt i] [(Suc 0, TInt4)] = int4 i"
  by (simp add: bind_def placeholder_def)

lemma query_by_id_closed:
  "query_by_id db i = (if int4 i then Some (select_by_id db i) else None)"
  by (simp add: query_by_id_def bind_id)

lemma execute_delete_closed:
  "execute_delete i db = (if int4 i then Some (delete_by_id i db) else None)"
  by (simp add: execute_delete_def bind_id)

lemma insert_task_str_date:
  "insert_task now [VText t, VText c, VText d, VTime ts] db = None"
  by (simp add: insert_task_def bind_def placeholder_def)

lemma insert_task_date:
  "insert_task now [VText t, VText c, VDate d, VTime ts] db = Some (insert_row now t c d ts db)"
  by (simp add: insert_task_def bind_def placeholder_def)

lemma build_update_nonempty: "fst (build_update u i) \<noteq> []"
  by (simp add: build_update_def add_timestamps_def split: prod.splits)

lemma build_update_bind:
  assumes "build_update u i = (cs, vs, k)"
  shows "bind vs (concat (map clause_param cs) @ [(Suc k, TInt4)]) = (u_due_date u = None \<and> int4 i)"
  using assms
  by (cases "u_title u"; cases "u_content u"; cases "u_due_date u"; cases "u_done u")
     (auto simp: build_update_def add_timestamps_def add_done_def add_due_date_def
        add_content_def add_title_def placeholder_def bind_def)

lemma build_update_run:
  assumes "build_update u i = (cs, vs, k)" and "u_due_date u = None"
  shows "assign_all now vs cs r = Some (merged now u r) \<and> placeholder vs (Suc k) = Some (VInt i)"
  using assms
  by (cases "u_title u"; cases "u_content u"; cases "u_done u")
     (auto simp: build_update_def add_timestamps_def add_done_def add_due_date_def
        add_content_def add_title_def placeholder_def merged_def)

lemma update_rows_closed:
  assumes "\<And>r. assign_all now vs cs r = Some (f r)"
  shows "update_rows now vs cs i rs =
     Some (map f (filter (\<lambda>r. row_id r = i) rs), map (\<lambda>r. if row_id r = i then f r else r) rs)"
  by (induction rs) (simp_all add: assms)

lemma fetchrow_map: "fetchrow (map f rs) = map_option f (fetchrow rs)"
  by (cases rs) (simp_all add: fetchrow_def)

lemma fetchrow_Some_mem: "fetchrow rs = Some r \<Longrightarrow> r \<in> set rs"
  by (cases rs) (auto simp: fetchrow_def)

lemma fetchrow_None_iff: "fetchrow rs = None \<longleftrightarrow> rs = []"
  by (cases rs) (auto simp: fetchrow_def)

lemma row_id_merged [simp]: "row_id (merged now u r) = row_id r"
  by (simp add: merged_def)

lemma watermark_merged [simp]:
  "row_last_request_timestamp (merged now u r) = u_request_timestamp u"
  by (simp add: merged_def)

lemma select_after_update:
  "filter (\<lambda>r. row_id r = j) (map (\<lambda>r. if row_id r = i then merged now u r else r) rs) =
     (if j = i then map (merged now u) (filter (\<lambda>r. row_id r = i) rs)
      else filter (\<lambda>r. row_id r = j) rs)"
  by (induction rs) auto

lemma update_no_row:
  "filter (\<lambda>r. row_id r = i) rs = [] \<Longrightarrow> map (\<lambda>r. if row_id r = i then f r else r) rs = rs"
  by (induction rs) (auto split: if_splits)

text \<open>The rewritten table of an update that the driver and the database carry out.\<close>

lemma update_write_closed:
  "update_write now i u db =
     (if u_due_date u \<noteq> None \<or> \<not> int4 i then (Inl InternalError, db)
      else
        (case fetchrow (select_by_id db i) of
           None \<Rightarrow> (Inl InternalError, db)
         | Some current \<Rightarrow>
             (Inr (task_response (merged now u current)),
              db\<lparr>tasks := map (\<lambda>r. if row_id r = i then merged now u r else r) (tasks db)\<rparr>)))"
proof -
  obtain cs vs k where b: "build_update u i = (cs, vs, k)"
    by (cases "build_update u i") auto
  have ne: "cs \<noteq> []" using build_update_nonempty [of u i] b by simp
  note bnd = build_update_bind [OF b]
  show ?thesis
  proof (cases "u_due_date u \<noteq> None \<or> \<not> int4 i")
    case True
    then have "execute_update now cs (Suc k) vs db = None"
      using bnd by (auto simp: execute_update_def)
    with True show ?thesis
      by (simp add: update_write_def b ne)
  next
    case False
    then have nd: "u_due_date u = None" and i4: "int4 i" by auto
    have run: "\<And>r. assign_all now vs cs r = Some (merged now u r)"
      and ph: "placeholder vs (Suc k) = Some (VInt i)"
      using build_update_run [OF b nd] by auto
    have ex: "execute_update now cs (Suc k) vs db =
        Some (map (merged now u) (select_by_id db i),
              db\<lparr>tasks := map (\<lambda>r. if row_id r = i then merged now u r else r) (tasks db)\<rparr>)"
      using bnd nd i4
      by (simp add: execute_update_def ph update_rows_closed [OF run] select_by_id_def)
    show ?thesis
    proof (cases "fetchrow (select_by_id db i)")
      case None
      then have "select_by_id db i = []" by (simp add: fetchrow_None_iff)
      then have "map (\<lambda>r. if row_id r = i then merged now u r else r) (tasks db) = tasks db"
        by (simp add: select_by_id_def update_no_row)
      with None False show ?thesis
        by (simp add: update_write_def b ne ex fetchrow_map)
    next
      case (Some current)
      with False show ?thesis
        by (simp add: update_write_def b ne ex fetchrow_map)
    qed
  qed
qed

lemma update_gate_closed:
  "update_gate i u db =
     (if \<not> int4 i then Some InternalError
      else
        (case fetchrow (select_by_id db i) of
           None \<Rightarrow> Some NotFound
         | Some current \<Rightarrow>
             if u_request_timestamp u \<le> row_last_request_timestamp current
             then Some Conflict else None))"
  by (simp add: update_gate_def query_by_id_closed)

lemma update_task_closed:
  "update_task now i u db =
     (if \<not> int4 i then (Inl InternalError, db)
      else
        (case fetchrow (select_by_id db i) of
           None \<Rightarrow> (Inl NotFound, db)
         | Some current \<Rightarrow>
             if u_request_timestamp u \<le> row_last_request_timestamp current
             then (Inl Conflict, db)
             else if u_due_date u \<noteq> None then (Inl InternalError, db)
             else (Inr (task_response (merged now u current)),
                   db\<lparr>tasks := map (\<lambda>r. if row_id r = i then merged now u r else r) (tasks db)\<rparr>)))"
  by (simp add: update_task_def update_gate_closed update_write_closed split: option.splits)

lemma delete_gate_closed:
  "delete_gate i d db =
     (if \<not> int4 i then Some InternalError
      else
        (case fetchrow (select_by_id db i) of
           None \<Rightarrow> Some NotFound
         | Some current \<Rightarrow>
             if d_request_timestamp d \<le> row_last_request_timestamp current
             then Some Conflict else None))"
  by (simp add: delete_gate_def query_by_id_closed)

lemma delete_task_closed:
  "delete_task i d db =
     (if \<not> int4 i then (Inl InternalError, db)
      else
        (case fetchrow (select_by_id db i) of
           None \<Rightarrow> (Inl NotFound, db)
         | Some current \<Rightarrow>
             if d_request_timestamp d \<le> row_last_request_timestamp current
             then (Inl Conflict, db)
             else (Inr ''Task deleted successfully'', delete_by_id i db)))"
  by (simp add: delete_task_def delete_gate_closed delete_write_def execute_delete_closed
      split: option.splits)

lemma get_task_closed:
  "get_task i db =
     (if \<not> int4 i then (Inl InternalError, db)
      else
        (case fetchrow (select_by_id db i) of
           None \<Rightarrow> (Inl NotFound, db)
         | Some r \<Rightarrow> (Inr (task_response r), db)))"
  by (simp add: get_task_def query_by_id_closed)

lemma select_conflicts_empty_iff:
  "fetchrow (select_conflicts db t ts) = None \<longleftrightarrow>
     \<not> (\<exists>r \<in> set (tasks db). row_title r = t \<and> ts \<le> row_last_request_timestamp r)"
  by (auto simp: fetchrow_None_iff select_conflicts_def filter_empty_conv)

lemma create_task_closed:
  "create_task now task db =
     (if \<exists>r \<in> set (tasks db). row_title r = c_title task
            \<and> c_request_timestamp task \<le> row_last_request_timestamp r
      then (Inl Conflict, db)
      else (Inl InternalError, db))"
proof (cases "fetchrow (select_conflicts db (c_title task) (c_request_timestamp task))")
  case None
  then show ?thesis
    using select_conflicts_empty_iff [of db "c_title task" "c_request_timestamp task"]
    by (auto simp: create_task_def insert_task_str_date)
next
  case (Some a)
  then show ?thesis
    using select_conflicts_empty_iff [of db "c_title task" "c_request_timestamp task"]
    by (simp add: create_task_def)
qed

lemma watermark_updated:
  assumes "fetchrow (select_by_id db i) = Some cur"
  shows "watermark (db\<lparr>tasks := map (\<lambda>r. if row_id r = i then merged now u r else r) (tasks db)\<rparr>) i
      = Some (u_request_timestamp u)"
  using assms by (simp add: watermark_def select_by_id_def select_after_update fetchrow_map)

section \<open>The watermark gate\<close>

text \<open>
  C1. For a task with watermark \<open>w\<close>, under an id the column holds: an update or a
  delete whose request timestamp is at most \<open>w\<close> is stopped by the gate, answered 409
  Conflict, and the database is returned as it was. A request timestamp above \<open>w\<close> is
  admitted by the gate, and the handler goes on to its statement: the delete removes the
  row; the update without \<^verbatim>\<open>due_date\<close> succeeds and leaves the request timestamp as
  the watermark; the update with a \<^verbatim>\<open>due_date\<close> is past the gate as well, and it is
  its \<^verbatim>\<open>UPDATE\<close> that the driver refuses.
\<close>

theorem stale_request_rejected:
  assumes "int4 i" and "watermark db i = Some w"
  shows "(u_request_timestamp u \<le> w \<longrightarrow>
            update_gate i u db = Some Conflict \<and> update_task now i u db = (Inl Conflict, db))
       \<and> (d_request_timestamp d \<le> w \<longrightarrow>
            delete_gate i d db = Some Conflict \<and> delete_task i d db = (Inl Conflict, db))
       \<and> (w < u_request_timestamp u \<longrightarrow>
            update_gate i u db = None
            \<and> update_task now i u db = update_write now i u db
            \<and> (u_due_date u = None \<longrightarrow>
                 (\<exists>resp db'. update_task now i u db = (Inr resp, db')
                    \<and> watermark db' i = Some (u_request_timestamp u)))
            \<and> (u_due_date u \<noteq> None \<longrightarrow> update_task now i u db = (Inl InternalError, db)))
       \<and> (w < d_request_timestamp d \<longrightarrow>
            delete_gate i d db = None
            \<and> (\<exists>m. delete_task i d db = (Inr m, delete_by_id i db)))"
proof -
  from assms(2) obtain cur where cur: "fetchrow (select_by_id db i) = Some cur"
    and w: "row_last_request_timestamp cur = w"
    by (auto simp: watermark_def)
  have ug: "u_request_timestamp u \<le> w \<longrightarrow> update_gate i u db = Some Conflict"
    and ua: "w < u_request_timestamp u \<longrightarrow> update_gate i u db = None"
    using assms(1) cur w by (simp_all add: update_gate_closed)
  have dg: "d_request_timestamp d \<le> w \<longrightarrow> delete_gate i d db = Some Conflict"
    and da: "w < d_request_timestamp d \<longrightarrow> delete_gate i d db = None"
    using assms(1) cur w by (simp_all add: delete_gate_closed)
  have ut: "u_request_timestamp u \<le> w \<longrightarrow> update_task now i u db = (Inl Conflict, db)"
    and dt: "d_request_timestamp d \<le> w \<longrightarrow> delete_task i d db = (Inl Conflict, db)"
    using ug dg by (simp_all add: update_task_def delete_task_def)
  have uw: "w < u_request_timestamp u \<longrightarrow> update_task now i u db = update_write now i u db"
    using ua by (simp add: update_task_def)
  have ok: "w < u_request_timestamp u \<longrightarrow> u_due_date u = None \<longrightarrow>
      (\<exists>resp db'. update_task now i u db = (Inr resp, db')
         \<and> watermark db' i = Some (u_request_timestamp u))"
    using assms(1) cur w watermark_updated [OF cur, of now u]
    by (simp add: update_task_closed)
  have bad: "w < u_request_timestamp u \<longrightarrow> u_due_date u \<noteq> None \<longrightarrow>
      update_task now i u db = (Inl InternalError, db)"
    using assms(1) cur w by (simp add: update_task_closed)
  have del: "w < d_request_timestamp d \<longrightarrow>
      (\<exists>m. delete_task i d db = (Inr m, delete_by_id i db))"
    using assms(1) cur w by (simp add: delete_task_closed)
  show ?thesis
    using ug ua dg da ut dt uw ok bad del by blast
qed

theorem stale_request_rejected_witness:
  "int4 1 \<and> watermark sample_db 1 = Some 100
   \<and> update_task 2000 1 (only_done 100) sample_db = (Inl Conflict, sample_db)
   \<and> delete_task 1 \<lparr>d_request_timestamp = 99\<rparr> sample_db = (Inl Conflict, sample_db)
   \<and> update_gate 1 (only_done 101) sample_db = None
   \<and> (\<exists>resp db'. update_task 2000 1 (only_done 101) sample_db = (Inr resp, db')
         \<and> watermark db' 1 = Some 101)
   \<and> update_gate 1 (only_due_date 101) sample_db = None
   \<and> update_task 2000 1 (only_due_date 101) sample_db = (Inl InternalError, sample_db)
   \<and> (\<exists>m. delete_task 1 \<lparr>d_request_timestamp = 101\<rparr> sample_db = (Inr m, delete_by_id 1 sample_db))"
proof -
  have i: "int4 1" by (simp add: int4_def)
  have h: "watermark sample_db 1 = Some 100"
    by (simp add: watermark_def select_by_id_def sample_db_def sample_row_def fetchrow_def)
  have p1: "u_request_timestamp (only_done 100) \<le> 100"
    and p2: "d_request_timestamp \<lparr>d_request_timestamp = 99\<rparr> \<le> 100"
    and p3: "100 < u_request_timestamp (only_done 101)" "u_due_date (only_done 101) = None"
    and p4: "100 < d_request_timestamp \<lparr>d_request_timestamp = 101\<rparr>"
    and p5: "100 < u_request_timestamp (only_due_date 101)"
      "u_due_date (only_due_date 101) \<noteq> None"
    and t: "u_request_timestamp (only_done 101) = 101"
    by (simp_all add: only_done_def only_due_date_def)
  from stale_request_rejected [OF i h, where u = "only_done 100"
      and d = "\<lparr>d_request_timestamp = 99\<rparr>" and now = 2000] p1 p2
  have a: "update_task 2000 1 (only_done 100) sample_db = (Inl Conflict, sample_db)"
    and b: "delete_task 1 \<lparr>d_request_timestamp = 99\<rparr> sample_db = (Inl Conflict, sample_db)"
    by blast+
  from stale_request_rejected [OF i h, where u = "only_done 101"
      and d = "\<lparr>d_request_timestamp = 101\<rparr>" and now = 2000] p3 p4
  have c: "update_gate 1 (only_done 101) sample_db = None"
    and d: "\<exists>resp db'. update_task 2000 1 (only_done 101) sample_db = (Inr resp, db')
         \<and> watermark db' 1 = Some (u_request_timestamp (only_done 101))"
    and e: "\<exists>m. delete_task 1 \<lparr>d_request_timestamp = 101\<rparr> sample_db
         = (Inr m, delete_by_id 1 sample_db)"
    by blast+
  from stale_request_rejected [OF i h, where u = "only_due_date 101"
      and d = "\<lparr>d_request_timestamp = 101\<rparr>" and now = 2000] p5
  have f: "update_gate 1 (only_due_date 101) sample_db = None"
    and g: "update_task 2000 1 (only_due_date 101) sample_db = (Inl InternalError, sample_db)"
    by blast+
  from d have d': "\<exists>resp db'. update_task 2000 1 (only_done 101) sample_db = (Inr resp, db')
         \<and> watermark db' 1 = Some 101"
    unfolding t .
  from i h a b c d' e f g show ?thesis by blast
qed

section \<open>Authentication stub\<close>

text \<open>
  C10. \<^verbatim>\<open>verify_token\<close> answers 401 Unauthorized exactly when the token is empty or
  shorter than ten characters, and it raises nothing else; every token of ten characters
  or more yields the same demo identity. The function has no access to the database.
\<close>

theorem verify_token_length:
  "(verify_token token = Inl Unauthorized \<longleftrightarrow> token = [] \<or> length token < 10)
   \<and> (10 \<le> length token \<longrightarrow>
        verify_token token = Inr \<lparr>user_id = ''demo_user'', scopes = [''read'', ''write'']\<rparr>)
   \<and> (\<forall>e. verify_token token = Inl e \<longrightarrow> e = Unauthorized)"
  by (auto simp: verify_token_def)

theorem verify_token_length_witness:
  "10 \<le> length ''0123456789''
   \<and> verify_token ''0123456789'' = Inr \<lparr>user_id = ''demo_user'', scopes = [''read'', ''write'']\<rparr>
   \<and> verify_token ''012345678'' = Inl Unauthorized
   \<and> verify_token [] = Inl Unauthorized"
  using verify_token_length [of "''0123456789''"] verify_token_length [of "''012345678''"]
    verify_token_length [of "[]"]
  by simp

section \<open>Create\<close>

text \<open>
  The guard of \<^verbatim>\<open>create_task\<close> does what it is meant to: the handler answers 409
  exactly when a row of the same title has a watermark at or above the request timestamp.
  Past the guard, the \<^verbatim>\<open>INSERT\<close> is given the \<^verbatim>\<open>due_date\<close> string for its
  \<^verbatim>\<open>DATE\<close> parameter, the driver refuses it, and the handler answers 500: no create
  is accepted and none changes the database. Given a date, the same statement would
  insert the row the handler is after.
\<close>

lemma create_guard_iff:
  "fst (create_task now task db) = Inl Conflict \<longleftrightarrow>
     (\<exists>r \<in> set (tasks db). row_title r = c_title task
         \<and> c_request_timestamp task \<le> row_last_request_timestamp r)"
  by (simp add: create_task_closed)


lemma create_keeps_database: "snd (create_task now task db) = db"
  by (simp add: create_task_closed)

lemma insert_with_date:
  "insert_task now [VText t, VText c, VDate d, VTime ts] db =
     Some (\<lparr>row_id = tasks_id_seq db, row_title = t, row_content = c, row_due_date = d,
             row_done = False, row_created_at = now, row_updated_at = now,
             row_last_request_timestamp = ts\<rparr>,
           \<lparr>tasks = tasks db @
              [\<lparr>row_id = tasks_id_seq db, row_title = t, row_content = c, row_due_date = d,
                row_done = False, row_created_at = now, row_updated_at = now,
                row_last_request_timestamp = ts\<rparr>],
            tasks_id_seq = tasks_id_seq db + 1\<rparr>)"
  by (simp add: insert_task_date insert_row_def Let_def)

text \<open>
  C4, where the code fails it. The only row titled X has watermark 100; a create titled
  X with request timestamp 101 passes the guard, and is answered 500 with the table as it
  was, where a new task was to be inserted.
\<close>

theorem create_past_guard_fails:
  "fetchrow (select_conflicts sample_db (c_title (sample_create 101))
       (c_request_timestamp (sample_create 101))) = None
   \<and> create_task 3000 (sample_create 101) sample_db = (Inl InternalError, sample_db)"
  by (simp add: create_task_closed select_conflicts_def fetchrow_def sample_db_def
      sample_row_def sample_create_def)

text \<open>
  C7, where the code fails it. The first create on the empty table is answered 500 and
  inserts nothing, where it was to insert the task and return it.
\<close>

theorem create_on_empty_fails:
  "create_task 3000 (sample_create 101) empty_database = (Inl InternalError, empty_database)"
  by (simp add: create_task_closed empty_database_def)

section \<open>Update\<close>

text \<open>
  C5. An accepted update rewrites the row of its id as the sparse merge says: the id and
  \<^verbatim>\<open>created_at\<close> are kept, each of title, content and done is replaced when the
  request holds it and kept otherwise, \<^verbatim>\<open>updated_at\<close> becomes the current time and
  the watermark the request timestamp; an accepted update holds no \<^verbatim>\<open>due_date\<close>, and
  the due date is kept. With only \<^verbatim>\<open>done = true\<close> in the request the new row is the
  old one with \<^verbatim>\<open>done\<close>, \<^verbatim>\<open>updated_at\<close> and the watermark replaced. Rows of other
  ids and the sequence are untouched.
\<close>

theorem partial_update_frame:
  assumes "update_task now i u db = (Inr resp, db')"
  shows "\<exists>cur r'. fetchrow (select_by_id db i) = Some cur
           \<and> fetchrow (select_by_id db' i) = Some r'
           \<and> resp = task_response r'
           \<and> r' = merged now u cur
           \<and> row_id r' = row_id cur \<and> row_created_at r' = row_created_at cur
           \<and> row_title r' = (case u_title u of None \<Rightarrow> row_title cur | Some v \<Rightarrow> v)
           \<and> row_content r' = (case u_content u of None \<Rightarrow> row_content cur | Some v \<Rightarrow> v)
           \<and> u_due_date u = None \<and> row_due_date r' = row_due_date cur
           \<and> row_done r' = (case u_done u of None \<Rightarrow> row_done cur | Some v \<Rightarrow> v)
           \<and> row_updated_at r' = now
           \<and> row_last_request_timestamp r' = u_request_timestamp u
           \<and> (u = only_done (u_request_timestamp u) \<longrightarrow>
                r' = cur\<lparr>row_done := True, row_updated_at := now,
                         row_last_request_timestamp := u_request_timestamp u\<rparr>)
           \<and> tasks db' = map (\<lambda>r. if row_id r = i then merged now u r else r) (tasks db)
           \<and> (\<forall>j. j \<noteq> i \<longrightarrow> select_by_id db' j = select_by_id db j)
           \<and> tasks_id_seq db' = tasks_id_seq db"
proof -
  from assms obtain cur where cur: "fetchrow (select_by_id db i) = Some cur"
    and nd: "u_due_date u = None"
    and resp: "resp = task_response (merged now u cur)"
    and db': "db' = db\<lparr>tasks := map (\<lambda>r. if row_id r = i then merged now u r else r) (tasks db)\<rparr>"
    by (auto simp: update_task_closed split: option.splits if_splits)
  have sel: "fetchrow (select_by_id db' i) = Some (merged now u cur)"
    using cur by (simp add: db' select_by_id_def select_after_update fetchrow_map)
  have other: "\<forall>j. j \<noteq> i \<longrightarrow> select_by_id db' j = select_by_id db j"
    by (simp add: db' select_by_id_def select_after_update)
  have od: "u = only_done (u_request_timestamp u) \<longrightarrow>
      merged now u cur = cur\<lparr>row_done := True, row_updated_at := now,
                         row_last_request_timestamp := u_request_timestamp u\<rparr>"
  proof
    assume "u = only_done (u_request_timestamp u)"
    then have "u_title u = None" "u_content u = None" "u_done u = Some True"
      by (metis only_done_def TaskUpdate.select_convs)+
    then show "merged now u cur = cur\<lparr>row_done := True, row_updated_at := now,
                         row_last_request_timestamp := u_request_timestamp u\<rparr>"
      by (simp add: merged_def)
  qed
  have fields: "row_created_at (merged now u cur) = row_created_at cur"
    "row_title (merged now u cur) = (case u_title u of None \<Rightarrow> row_title cur | Some v \<Rightarrow> v)"
    "row_content (merged now u cur) = (case u_content u of None \<Rightarrow> row_content cur | Some v \<Rightarrow> v)"
    "row_due_date (merged now u cur) = row_due_date cur"
    "row_done (merged now u cur) = (case u_done u of None \<Rightarrow> row_done cur | Some v \<Rightarrow> v)"
    "row_updated_at (merged now u cur) = now"
    by (simp_all add: merged_def)
  show ?thesis
    using cur sel resp od other fields nd by (simp add: db')
qed

theorem partial_update_frame_witness:
  "update_task 2000 1 (only_done 200) sample_db =
     (Inr (task_response done_row), \<lparr>tasks = [done_row], tasks_id_seq = 2\<rparr>)
   \<and> fetchrow (select_by_id sample_db 1) = Some sample_row
   \<and> fetchrow (select_by_id \<lparr>tasks = [done_row], tasks_id_seq = 2\<rparr> 1) =
       Some (sample_row\<lparr>row_done := True, row_updated_at := 2000,
                        row_last_request_timestamp := 200\<rparr>)"
proof -
  have h: "update_task 2000 1 (only_done 200) sample_db =
     (Inr (task_response done_row), \<lparr>tasks = [done_row], tasks_id_seq = 2\<rparr>)"
    by (simp add: update_task_closed int4_def select_by_id_def fetchrow_def sample_db_def
        sample_row_def only_done_def merged_def done_row_def)
  have s: "fetchrow (select_by_id sample_db 1) = Some sample_row"
    by (simp add: select_by_id_def fetchrow_def sample_db_def sample_row_def)
  have t: "u_request_timestamp (only_done 200) = 200"
    by (simp add: only_done_def)
  from partial_update_frame [OF h] obtain cur r' where
    c: "fetchrow (select_by_id sample_db 1) = Some cur"
    and r: "fetchrow (select_by_id \<lparr>tasks = [done_row], tasks_id_seq = 2\<rparr> 1) = Some r'"
    and o: "only_done 200 = only_done (u_request_timestamp (only_done 200)) \<longrightarrow>
         r' = cur\<lparr>row_done := True, row_updated_at := 2000,
                  row_last_request_timestamp := u_request_timestamp (only_done 200)\<rparr>"
    by blast
  from c s have "cur = sample_row" by simp
  with o t r h s show ?thesis by simp
qed

section \<open>Reads\<close>


section \<open>Invariants of the table\<close>

lemma snd_handle:
  "snd (handle now rq db) =
     (case rq of
        Create task \<Rightarrow> snd (create_task now task db)
      | ListAll \<Rightarrow> db
      | Get i \<Rightarrow> db
      | Update i u \<Rightarrow> snd (update_task now i u db)
      | Delete i d \<Rightarrow> snd (delete_task i d db))"
  by (simp add: handle_def list_tasks_def get_task_closed split: request.splits prod.splits option.splits)

lemma well_formed_create: "well_formed db \<Longrightarrow> well_formed (snd (create_task now task db))"
  by (simp add: create_keeps_database)

lemma row_id_update:
  "row_id \<circ> (\<lambda>r. if row_id r = i then merged now u r else r) = row_id"
  by (auto simp: fun_eq_iff)

lemma well_formed_update: "well_formed db \<Longrightarrow> well_formed (snd (update_task now i u db))"
  by (auto simp: update_task_closed well_formed_def list_all_iff row_id_update
      split: option.splits)

lemma well_formed_delete: "well_formed db \<Longrightarrow> well_formed (snd (delete_task i d db))"
  by (auto simp: delete_task_closed delete_by_id_def well_formed_def list_all_iff distinct_map_filter
      split: option.splits)

lemma well_formed_handle: "well_formed db \<Longrightarrow> well_formed (snd (handle now rq db))"
  by (cases rq)
     (simp_all add: snd_handle well_formed_create well_formed_update well_formed_delete)

lemma well_formed_run: "well_formed db \<Longrightarrow> well_formed (run rqs db)"
  by (induction rqs arbitrary: db) (auto simp: well_formed_handle)

lemma well_formed_empty: "well_formed empty_database"
  by (simp add: well_formed_def empty_database_def)

lemma well_formed_reachable: "well_formed (run rqs empty_database)"
  by (rule well_formed_run [OF well_formed_empty])

lemma gone_create: "gone db i \<Longrightarrow> gone (snd (create_task now task db)) i"
  by (simp add: create_keeps_database)

lemma gone_update: "gone db i \<Longrightarrow> gone (snd (update_task now j u db)) i"
  by (auto simp: update_task_closed gone_def select_by_id_def select_after_update
      split: option.splits)

lemma gone_delete: "gone db i \<Longrightarrow> gone (snd (delete_task j d db)) i"
  by (auto simp: delete_task_closed delete_by_id_def gone_def select_by_id_def filter_empty_conv
      split: option.splits)

lemma gone_handle: "gone db i \<Longrightarrow> gone (snd (handle now rq db)) i"
  by (cases rq) (simp_all add: snd_handle gone_create gone_update gone_delete)

lemma gone_run: "gone db i \<Longrightarrow> gone (run rqs db) i"
  by (induction rqs arbitrary: db) (auto simp: gone_handle)

lemma gone_after_delete:
  assumes "well_formed db" and "delete_task i d db = (Inr m, db')"
  shows "gone db' i"
proof -
  from assms(2) obtain cur where i4: "int4 i" and cur: "fetchrow (select_by_id db i) = Some cur"
    and db': "db' = delete_by_id i db"
    by (auto simp: delete_task_closed split: option.splits if_splits)
  from cur have "cur \<in> set (tasks db)" "row_id cur = i"
    using fetchrow_Some_mem [OF cur] by (auto simp: select_by_id_def)
  with assms(1) have "i < tasks_id_seq db"
    by (auto simp: well_formed_def list_all_iff)
  with i4 show ?thesis
    by (auto simp: db' gone_def delete_by_id_def select_by_id_def filter_empty_conv)
qed

lemma gone_not_found:
  assumes "gone db i"
  shows "get_task i db = (Inl NotFound, db)"
    and "update_task now i u db = (Inl NotFound, db)"
    and "delete_task i d db = (Inl NotFound, db)"
  using assms
  by (simp_all add: gone_def get_task_closed update_task_closed delete_task_closed fetchrow_def)

section \<open>Delete\<close>

text \<open>
  C6. After a successful delete of an id in a well-formed table, whatever requests are
  served afterwards, a get, an update or a delete of that id is answered 404 NotFound,
  for every request timestamp: the sequence never gives the id out again.
\<close>

theorem deletion_terminal:
  assumes "well_formed db" and "delete_task i d db = (Inr m, db')"
  shows "get_task i (run rqs db') = (Inl NotFound, run rqs db')
       \<and> update_task now i u (run rqs db') = (Inl NotFound, run rqs db')
       \<and> delete_task i d' (run rqs db') = (Inl NotFound, run rqs db')"
proof -
  have "gone (run rqs db') i"
    using gone_after_delete [OF assms] by (rule gone_run)
  then show ?thesis
    by (simp add: gone_not_found)
qed

theorem deletion_terminal_witness:
  "well_formed two_rows_db
   \<and> delete_task 1 \<lparr>d_request_timestamp = 101\<rparr> two_rows_db =
       (Inr ''Task deleted successfully'', \<lparr>tasks = [second_row], tasks_id_seq = 3\<rparr>)
   \<and> fst (get_task 1
        (run [(3000, Create (sample_create 500)), (3100, Update 2 (only_done 500))]
           \<lparr>tasks = [second_row], tasks_id_seq = 3\<rparr>))
       = Inl NotFound
   \<and> fst (update_task 4000 1 (only_done 900)
        (run [(3000, Create (sample_create 500)), (3100, Update 2 (only_done 500))]
           \<lparr>tasks = [second_row], tasks_id_seq = 3\<rparr>))
       = Inl NotFound
   \<and> fst (delete_task 1 \<lparr>d_request_timestamp = 900\<rparr>
        (run [(3000, Create (sample_create 500)), (3100, Update 2 (only_done 500))]
           \<lparr>tasks = [second_row], tasks_id_seq = 3\<rparr>))
       = Inl NotFound"
proof -
  have wf: "well_formed two_rows_db"
    by (simp add: well_formed_def two_rows_db_def sample_row_def second_row_def)
  have h: "delete_task 1 \<lparr>d_request_timestamp = 101\<rparr> two_rows_db =
       (Inr ''Task deleted successfully'', \<lparr>tasks = [second_row], tasks_id_seq = 3\<rparr>)"
    by (simp add: delete_task_closed int4_def delete_by_id_def select_by_id_def fetchrow_def
        two_rows_db_def sample_row_def second_row_def)
  show ?thesis
    using wf h
      deletion_terminal [OF wf h,
        where rqs = "[(3000, Create (sample_create 500)), (3100, Update 2 (only_done 500))]"
        and now = 4000 and u = "only_done 900" and d' = "\<lparr>d_request_timestamp = 900\<rparr>"]
    by simp
qed

section \<open>Accepted mutations, one request after the other\<close>

lemma accepted_Some:
  "accepted now rq db = Some (i, t) \<longleftrightarrow>
     (case rq of
        Create task \<Rightarrow> (\<exists>resp. fst (create_task now task db) = Inr resp \<and> resp_id resp = i)
                          \<and> t = c_request_timestamp task
      | Update j u \<Rightarrow> j = i \<and> t = u_request_timestamp u
                          \<and> (\<exists>resp. fst (update_task now j u db) = Inr resp)
      | Delete j d \<Rightarrow> j = i \<and> t = d_request_timestamp d
                          \<and> (\<exists>m. fst (delete_task j d db) = Inr m)
      | _ \<Rightarrow> False)"
  by (auto simp: accepted_def split: request.splits sum.splits)

lemma create_not_accepted: "accepted now (Create task) db = None"
  by (simp add: accepted_def create_task_closed)

lemma not_accepted_same:
  assumes "\<forall>t. accepted now rq db \<noteq> Some (i, t)"
  shows "select_by_id (snd (handle now rq db)) i = select_by_id db i"
proof (cases rq)
  case (Create task)
  then show ?thesis
    by (simp add: snd_handle create_keeps_database)
next
  case (Update j u)
  with assms show ?thesis
    by (auto simp: snd_handle accepted_def update_task_closed select_by_id_def
        select_after_update split: option.splits)
next
  case (Delete j d)
  with assms show ?thesis
    by (auto simp: snd_handle accepted_def delete_task_closed select_by_id_def delete_by_id_def
        fetchrow_None_iff filter_empty_conv split: option.splits intro!: filter_cong)
qed (simp_all add: snd_handle)

lemma accepted_step:
  assumes wf: "well_formed db" and acc: "accepted now rq db = Some (i, t)"
  shows "(\<forall>w. watermark db i = Some w \<longrightarrow> w < t)
       \<and> (watermark (snd (handle now rq db)) i = Some t \<or> gone (snd (handle now rq db)) i)"
proof (cases rq)
  case (Create task)
  with acc show ?thesis by (simp add: create_not_accepted)
next
  case (Update j u)
  with acc have j: "j = i" and t: "t = u_request_timestamp u"
    and ok: "\<exists>resp. fst (update_task now i u db) = Inr resp"
    by (auto simp: accepted_Some)
  from ok obtain cur where cur: "fetchrow (select_by_id db i) = Some cur"
    and lt: "row_last_request_timestamp cur < t"
    and i4: "int4 i" and nd: "u_due_date u = None"
    by (auto simp: update_task_closed t split: option.splits if_splits)
  then have w: "watermark db i = Some (row_last_request_timestamp cur)"
    by (simp add: watermark_def)
  have "watermark (snd (update_task now i u db)) i = Some t"
    using cur lt i4 nd watermark_updated [OF cur, of now u] by (simp add: update_task_closed t)
  with w lt show ?thesis
    by (simp add: Update j snd_handle)
next
  case (Delete j d)
  with acc have j: "j = i" and t: "t = d_request_timestamp d"
    and ok: "\<exists>m. fst (delete_task i d db) = Inr m"
    by (auto simp: accepted_Some)
  from ok obtain cur m where cur: "fetchrow (select_by_id db i) = Some cur"
    and lt: "row_last_request_timestamp cur < t"
    and del: "delete_task i d db = (Inr m, snd (delete_task i d db))"
    by (auto simp: delete_task_closed t split: option.splits if_splits)
  have "gone (snd (delete_task i d db)) i"
    using gone_after_delete [OF wf del] .
  with cur lt show ?thesis
    by (simp add: Delete j snd_handle watermark_def)
qed (insert acc, simp_all add: accepted_def)

lemma gone_no_accepted:
  assumes g: "gone db i"
  shows "accepted now rq db \<noteq> Some (i, t)"
proof
  assume acc: "accepted now rq db = Some (i, t)"
  show False
  proof (cases rq)
    case (Create task)
    with acc show False by (simp add: create_not_accepted)
  next
    case (Update j u)
    with acc have "\<exists>resp. fst (update_task now i u db) = Inr resp"
      by (auto simp: accepted_Some)
    with gone_not_found(2) [OF g, of now u] show False by simp
  next
    case (Delete j d)
    with acc have "\<exists>m. fst (delete_task i d db) = Inr m"
      by (auto simp: accepted_Some)
    with gone_not_found(3) [OF g, of d] show False by simp
  qed (insert acc, simp_all add: accepted_def)
qed

lemma accepted_timestamps_Cons:
  "accepted_timestamps i ((now, rq) # rqs) db =
     (case accepted now rq db of
        None \<Rightarrow> []
      | Some (j, t) \<Rightarrow> if j = i then [t] else [])
     @ accepted_timestamps i rqs (snd (handle now rq db))"
  by (simp add: accepted_timestamps_def split: option.splits)

lemma gone_timestamps: "gone db i \<Longrightarrow> accepted_timestamps i rqs db = []"
proof (induction rqs arbitrary: db)
  case Nil
  then show ?case by (simp add: accepted_timestamps_def)
next
  case (Cons a rqs)
  obtain now rq where a: "a = (now, rq)" by (cases a)
  have "accepted_timestamps i rqs (snd (handle now rq db)) = []"
    using Cons.IH gone_handle [OF Cons.prems] by simp
  then show ?case
    using gone_no_accepted [OF Cons.prems, of now rq]
    by (auto simp: a accepted_timestamps_Cons split: option.splits)
qed

lemma timestamps_increase:
  "well_formed db \<Longrightarrow>
     sorted_wrt (<) (accepted_timestamps i rqs db)
     \<and> (\<forall>w. watermark db i = Some w \<longrightarrow> (\<forall>t \<in> set (accepted_timestamps i rqs db). w < t))"
proof (induction rqs arbitrary: db)
  case Nil
  then show ?case by (simp add: accepted_timestamps_def)
next
  case (Cons a rqs)
  obtain now rq where a: "a = (now, rq)" by (cases a)
  let ?db1 = "snd (handle now rq db)"
  let ?rest = "accepted_timestamps i rqs ?db1"
  have wf1: "well_formed ?db1" using Cons.prems by (rule well_formed_handle)
  have IH: "sorted_wrt (<) ?rest" "\<And>w. watermark ?db1 i = Some w \<Longrightarrow> \<forall>t \<in> set ?rest. w < t"
    using Cons.IH [OF wf1] by auto
  show ?case
  proof (cases "\<exists>t. accepted now rq db = Some (i, t)")
    case True
    then obtain t where acc: "accepted now rq db = Some (i, t)" by blast
    have eq: "accepted_timestamps i (a # rqs) db = t # ?rest"
      by (simp add: a accepted_timestamps_Cons acc)
    from accepted_step [OF Cons.prems acc]
    have before: "\<forall>w. watermark db i = Some w \<longrightarrow> w < t"
      and after: "watermark ?db1 i = Some t \<or> gone ?db1 i" by auto
    have rest: "\<forall>t' \<in> set ?rest. t < t'"
      using after IH(2) gone_timestamps by fastforce
    show ?thesis
      using eq IH(1) rest before by fastforce
  next
    case False
    then have eq: "accepted_timestamps i (a # rqs) db = ?rest"
      by (auto simp: a accepted_timestamps_Cons split: option.splits)
    from False have "select_by_id ?db1 i = select_by_id db i"
      by (intro not_accepted_same) simp
    then have "watermark ?db1 i = watermark db i"
      by (simp add: watermark_def)
    then show ?thesis
      using eq IH by simp
  qed
qed

lemma gone_watermark: "gone db i \<Longrightarrow> watermark db i = None"
  by (simp add: gone_def watermark_def fetchrow_def)

lemma watermark_run_mono:
  "well_formed db \<Longrightarrow> watermark db i = Some w \<Longrightarrow> watermark (run rqs db) i = Some w'
     \<Longrightarrow> w \<le> w'"
proof (induction rqs arbitrary: db w)
  case Nil
  then show ?case by simp
next
  case (Cons a rqs)
  obtain now rq where a: "a = (now, rq)" by (cases a)
  let ?db1 = "snd (handle now rq db)"
  have wf1: "well_formed ?db1" using Cons.prems(1) by (rule well_formed_handle)
  have fin: "watermark (run rqs ?db1) i = Some w'" using Cons.prems(3) by (simp add: a)
  show ?case
  proof (cases "\<exists>t. accepted now rq db = Some (i, t)")
    case True
    then obtain t where acc: "accepted now rq db = Some (i, t)" by blast
    from accepted_step [OF Cons.prems(1) acc] Cons.prems(2)
    have lt: "w < t" and after: "watermark ?db1 i = Some t \<or> gone ?db1 i" by auto
    from after show ?thesis
    proof
      assume "watermark ?db1 i = Some t"
      from Cons.IH [OF wf1 this fin] lt show ?thesis by simp
    next
      assume "gone ?db1 i"
      then have "watermark (run rqs ?db1) i = None"
        by (intro gone_watermark gone_run)
      with fin show ?thesis by simp
    qed
  next
    case False
    then have "select_by_id ?db1 i = select_by_id db i"
      by (intro not_accepted_same) simp
    then have "watermark ?db1 i = Some w"
      using Cons.prems(2) by (simp add: watermark_def)
    from Cons.IH [OF wf1 this fin] show ?thesis .
  qed
qed

text \<open>
  When every request is served whole before the next begins, the gate keeps the order:
  from a well-formed table the watermark of an id never falls, and the request
  timestamps of its accepted mutations rise strictly, all above the watermark at the
  start.
\<close>

lemma watermark_monotone_in_sequence:
  assumes "well_formed db"
  shows "(\<forall>w w'. watermark db i = Some w \<and> watermark (run rqs db) i = Some w' \<longrightarrow> w \<le> w')
       \<and> sorted_wrt (<) (accepted_timestamps i rqs db)
       \<and> (\<forall>w. watermark db i = Some w \<longrightarrow> (\<forall>t \<in> set (accepted_timestamps i rqs db). w < t))"
  using timestamps_increase [OF assms, of i rqs] watermark_run_mono [OF assms, of i _ rqs]
  by blast

lemma sample_requests_in_sequence:
  "watermark sample_db 1 = Some 100
   \<and> watermark (run sample_requests sample_db) 1 = Some 250
   \<and> accepted_timestamps 1 sample_requests sample_db = [200, 250]"
  by code_simp

section \<open>Updates in flight together\<close>

text \<open>
  A schedule of whole requests is a run, and an update taken through its gate and sent
  on at once is the update served whole.
\<close>

lemma interleave_whole:
  "store (interleave (map (\<lambda>(now, rq). Whole now rq) rqs) s) = run rqs (store s)
   \<and> accepted_so_far (interleave (map (\<lambda>(now, rq). Whole now rq) rqs) s)
       = accepted_so_far s @ accepted_log rqs (store s)"
proof (induction rqs arbitrary: s)
  case Nil
  then show ?case by simp
next
  case (Cons a rqs)
  obtain now rq where a: "a = (now, rq)" by (cases a)
  show ?case
    using Cons.IH [of "act (Whole now rq) s"] by (simp add: a)
qed

lemma begin_end_is_update:
  assumes "map_of (suspended s) k = None"
  shows "store (act (UpdateEnd k now) (act (UpdateBegin k i u) s))
           = snd (update_task now i u (store s))"
proof (cases "update_gate i u (store s)")
  case None
  then show ?thesis
    by (simp add: update_task_def split: prod.splits)
next
  case (Some e)
  then show ?thesis
    using assms by (simp add: update_task_def)
qed

text \<open>
  C3, where the code fails it. Task 1 has watermark 100. Two updates of it are in
  flight, with request timestamps 300 and 200; both pass the gate before either sends
  its \<^verbatim>\<open>UPDATE\<close>. Both are accepted: the watermark is 300 after the first write and
  200 after the second, and the accepted request timestamps are 300, then 200.
\<close>

theorem racing_updates_lower_watermark:
  "watermark sample_db 1 = Some 100
   \<and> suspended (interleave (take 2 racing_updates) (serving sample_db))
       = [(2, 1, only_done 200), (1, 1, only_done 300)]
   \<and> watermark (store (interleave (take 3 racing_updates) (serving sample_db))) 1 = Some 300
   \<and> watermark (store (interleave racing_updates (serving sample_db))) 1 = Some 200
   \<and> accepted_so_far (interleave racing_updates (serving sample_db)) = [(1, 300), (1, 200)]"
  by code_simp

section \<open>Reads leave the table alone\<close>



section \<open>The update without fields\<close>

text \<open>
  \<^verbatim>\<open>update_task\<close> tests \<^verbatim>\<open>if not updates\<close> after the two timestamp
  assignments were appended, so the list is never empty there
  (\<open>build_update_nonempty\<close>) and the handler never answers 400. A request without
  fields is decided like any other: by the existence check, then by the watermark gate.
\<close>

text \<open>
  C2, as amended. An update that holds none of the optional fields is answered 404
  NotFound when its id, one the column can hold, has no row, and 409 Conflict when its
  request timestamp is at most the watermark of the row; in both cases the database,
  watermark and \<^verbatim>\<open>updated_at\<close> included, is returned as it was.
\<close>

theorem empty_update_gate_first:
  "(int4 i \<and> watermark db i = None \<longrightarrow> update_task now i (no_fields t) db = (Inl NotFound, db))
   \<and> (\<forall>w. int4 i \<and> watermark db i = Some w \<and> t \<le> w \<longrightarrow>
          update_task now i (no_fields t) db = (Inl Conflict, db))"
  by (auto simp: update_task_closed watermark_def no_fields_def)

theorem empty_update_gate_first_witness:
  "int4 7 \<and> watermark sample_db 7 = None
   \<and> update_task 2000 7 (no_fields 50) sample_db = (Inl NotFound, sample_db)
   \<and> int4 1 \<and> watermark sample_db 1 = Some 100 \<and> (50::int) \<le> 100
   \<and> update_task 2000 1 (no_fields 50) sample_db = (Inl Conflict, sample_db)"
proof -
  have i: "int4 7" "int4 1" by (simp_all add: int4_def)
  have n: "watermark sample_db 7 = None"
    by (simp add: watermark_def select_by_id_def sample_db_def sample_row_def fetchrow_def)
  have w: "watermark sample_db 1 = Some 100"
    by (simp add: watermark_def select_by_id_def sample_db_def sample_row_def fetchrow_def)
  show ?thesis
    using i n w empty_update_gate_first [of 7 sample_db 2000 50]
      empty_update_gate_first [of 1 sample_db 2000 50]
    by simp
qed

text \<open>
  C2, as stated, fails: with watermark 100, the update without fields and with request
  timestamp 50 is answered 409 Conflict by the gate, not 400.
\<close>

theorem empty_update_not_bad_request:
  "update_task 2000 1 (no_fields 50) sample_db = (Inl Conflict, sample_db)
   \<and> fst (update_task 2000 1 (no_fields 50) sample_db) \<noteq> Inl BadRequest"
  by (simp add: update_task_closed int4_def select_by_id_def fetchrow_def sample_db_def
      sample_row_def no_fields_def)

text \<open>
  Past the gate the request without fields is carried out: the row keeps its fields,
  \<^verbatim>\<open>updated_at\<close> and the watermark move. An id the column cannot hold is answered
  500, by a get as by an update.
\<close>

lemma empty_update_accepted:
  "update_task 2000 1 (no_fields 200) sample_db =
     (Inr (task_response (sample_row\<lparr>row_updated_at := 2000\<rparr>)),
      \<lparr>tasks = [sample_row\<lparr>row_updated_at := 2000, row_last_request_timestamp := 200\<rparr>],
       tasks_id_seq = 2\<rparr>)"
  by (simp add: update_task_closed int4_def select_by_id_def fetchrow_def sample_db_def
      sample_row_def no_fields_def merged_def task_response_def)

lemma id_out_of_range:
  "get_task 2147483648 sample_db = (Inl InternalError, sample_db)
   \<and> update_task 2000 2147483648 (no_fields 50) sample_db = (Inl InternalError, sample_db)"
  by (simp add: get_task_closed update_task_closed int4_def)

end
